theory Spec2Isabelle
  imports Main
begin

section \<open>Data model of the server (src/app.js)\<close>

text \<open>
  The server keeps one \<^verbatim>\<open>ChessGame\<close> object and reacts to socket events, to the
  \<^verbatim>\<open>/reset\<close> route and to the callbacks of the intervals it schedules. Every
  handler runs to completion before the next one starts, so a handler is a function from
  the state to the new state and the list of messages it emits, in order.

  The objects \<^verbatim>\<open>{ white: ..., black: ... }\<close> are records with one field per key;
  \<^verbatim>\<open>obj[color]\<close> reads and writes through \<open>at_color\<close> and \<open>put_color\<close>.
\<close>

datatype color = White | Black

record 'a by_color =
  white :: 'a
  black :: 'a

fun at_color :: "color \<Rightarrow> 'a by_color \<Rightarrow> 'a" where
  "at_color White r = white r"
| "at_color Black r = black r"

fun put_color :: "color \<Rightarrow> 'a \<Rightarrow> 'a by_color \<Rightarrow> 'a by_color" where
  "put_color White v r = r\<lparr>white := v\<rparr>"
| "put_color Black v r = r\<lparr>black := v\<rparr>"

text \<open>\<^verbatim>\<open>color[0]\<close>, the first letter of \<^verbatim>\<open>'white'\<close> or \<^verbatim>\<open>'black'\<close>.\<close>

fun first_letter :: "color \<Rightarrow> string" where
  "first_letter White = ''w''"
| "first_letter Black = ''b''"

type_synonym socket_id = string

subsection \<open>The rules engine (chess.js), a parameter\<close>

text \<open>
  chess.js is a dependency, not code of the repository: it is a parameter of the model.
  A position is a value of an arbitrary type \<open>'p\<close>. \<open>move\<close> answers with the new
  position, with \<^verbatim>\<open>null\<close> (an illegal move) or by throwing an error with a
  message; in the last two cases the engine has not changed the position.
  \<open>turn\<close> answers \<^verbatim>\<open>'w'\<close> or \<^verbatim>\<open>'b'\<close>.
\<close>

record server_move =
  m_from :: string
  m_to :: string
  m_promotion :: string

datatype 'p move_result = Moved 'p | Null | Throws string

record 'p engine =
  new_Chess :: 'p
  turn :: "'p \<Rightarrow> string"
  move :: "'p \<Rightarrow> server_move \<Rightarrow> 'p move_result"
  fen :: "'p \<Rightarrow> string"
  in_checkmate :: "'p \<Rightarrow> bool"
  in_stalemate :: "'p \<Rightarrow> bool"
  in_draw :: "'p \<Rightarrow> bool"

subsection \<open>Messages\<close>

text \<open>
  The payload of a \<^verbatim>\<open>move\<close> event: an object with the fields \<^verbatim>\<open>from\<close>,
  \<^verbatim>\<open>to\<close> and an optional \<^verbatim>\<open>promotion\<close>, or \<^verbatim>\<open>null\<close>/\<^verbatim>\<open>undefined\<close>,
  where reading \<^verbatim>\<open>move.from\<close> throws a TypeError; \<open>Nullish\<close> carries the message
  of that error.
\<close>

record move_fields =
  p_from :: string
  p_to :: string
  p_promotion :: "string option"

datatype move_payload = Obj move_fields | Nullish string

datatype message =
    PlayerRole string
  | SpectatorRole
  | GameState string "int by_color"
  | MoveMsg server_move string "int by_color"
  | TimerUpdate "int by_color"
  | TimeUp string
  | GameOver string
  | InvalidMove string
  | DrawOffered
  | PlayerDisconnected string
  | ResetMsg string "int by_color"

text \<open>
  \<open>ToAll\<close> is \<^verbatim>\<open>io.emit\<close>, \<open>ToSocket\<close> is \<^verbatim>\<open>socket.emit\<close> (to that connection
  only), \<open>ToOthers\<close> is \<^verbatim>\<open>socket.broadcast.emit\<close> (to every connection but that one).
\<close>

datatype emission =
    ToAll message
  | ToSocket socket_id message
  | ToOthers socket_id message

fun is_broadcast :: "emission \<Rightarrow> bool" where
  "is_broadcast (ToAll m) = True"
| "is_broadcast (ToOthers c m) = True"
| "is_broadcast (ToSocket c m) = False"

fun is_gameOver :: "emission \<Rightarrow> bool" where
  "is_gameOver (ToAll (GameOver t)) = True"
| "is_gameOver e = False"

fun is_timeUp :: "emission \<Rightarrow> bool" where
  "is_timeUp (ToAll (TimeUp t)) = True"
| "is_timeUp e = False"

fun is_invalidMove_to :: "socket_id \<Rightarrow> emission \<Rightarrow> bool" where
  "is_invalidMove_to c (ToSocket c' (InvalidMove t)) = (c' = c)"
| "is_invalidMove_to c e = False"

subsection \<open>State\<close>

text \<open>
  The first four fields are those of \<^verbatim>\<open>ChessGame\<close>. An absent key of
  \<^verbatim>\<open>timerIntervals\<close> is \<open>None\<close>. The last two fields are the timer table of the
  JavaScript runtime: \<open>scheduled\<close> lists the intervals that \<^verbatim>\<open>setInterval\<close> has
  created and \<^verbatim>\<open>clearInterval\<close> has not cleared, each with the color that its
  callback has captured; \<open>next_handle\<close> is the handle of the next interval.
  A countdown decrements only through a callback of a scheduled interval.
\<close>

record 'p server =
  chess :: 'p
  players :: "socket_id option by_color"
  timers :: "int by_color"
  timerIntervals :: "nat option by_color"
  scheduled :: "(nat \<times> color) list"
  next_handle :: nat

definition no_intervals :: "nat option by_color" where
  "no_intervals = \<lparr>white = None, black = None\<rparr>"

text \<open>\<^verbatim>\<open>const game = new ChessGame()\<close> at the start of the process.\<close>

definition init :: "'p engine \<Rightarrow> 'p server" where
  "init E = \<lparr>chess = new_Chess E,
             players = \<lparr>white = None, black = None\<rparr>,
             timers = \<lparr>white = 600, black = 600\<rparr>,
             timerIntervals = no_intervals,
             scheduled = [],
             next_handle = 0\<rparr>"

section \<open>The methods of ChessGame\<close>

text \<open>\<^verbatim>\<open>Object.values(this.timerIntervals)\<close>: the handles stored under the keys present.\<close>

definition values_of :: "nat option by_color \<Rightarrow> nat list" where
  "values_of r = (case white r of None \<Rightarrow> [] | Some h \<Rightarrow> [h]) @
                 (case black r of None \<Rightarrow> [] | Some h \<Rightarrow> [h])"

definition clearInterval :: "nat \<Rightarrow> (nat \<times> color) list \<Rightarrow> (nat \<times> color) list" where
  "clearInterval h tbl = filter (\<lambda>(h', c). h' \<noteq> h) tbl"

definition stopTimers :: "'p server \<Rightarrow> 'p server" where
  "stopTimers s =
     s\<lparr>scheduled := fold clearInterval (values_of (timerIntervals s)) (scheduled s),
       timerIntervals := no_intervals\<rparr>"

definition startTimer :: "color \<Rightarrow> 'p server \<Rightarrow> 'p server" where
  "startTimer c s =
     (let s1 = stopTimers s;
          h = next_handle s1
      in s1\<lparr>timerIntervals := put_color c (Some h) (timerIntervals s1),
             scheduled := scheduled s1 @ [(h, c)],
             next_handle := Suc h\<rparr>)"

text \<open>
  The callback that \<^verbatim>\<open>startTimer(color)\<close> passes to \<^verbatim>\<open>setInterval\<close>, run once
  for the color it has captured.
\<close>

definition interval_callback :: "color \<Rightarrow> 'p server \<Rightarrow> 'p server \<times> emission list" where
  "interval_callback c s =
     (let s1 = s\<lparr>timers := put_color c (at_color c (timers s) - 1) (timers s)\<rparr>;
          out = [ToAll (TimerUpdate (timers s1))]
      in if at_color c (timers s1) \<le> 0
         then (stopTimers s1, out @ [ToAll (TimeUp (first_letter c))])
         else (s1, out))"

text \<open>The runtime fires the interval with handle \<open>h\<close>; a cleared interval never fires.\<close>

definition tick :: "nat \<Rightarrow> 'p server \<Rightarrow> 'p server \<times> emission list" where
  "tick h s =
     (case map_of (scheduled s) h of
        None \<Rightarrow> (s, [])
      | Some c \<Rightarrow> interval_callback c s)"

definition reset :: "'p engine \<Rightarrow> 'p server \<Rightarrow> 'p server" where
  "reset E s =
     (let s1 = s\<lparr>chess := new_Chess E\<rparr>;
          s2 = s1\<lparr>timers := \<lparr>white = 600, black = 600\<rparr>\<rparr>;
          s3 = stopTimers s2
      in s3\<lparr>players := \<lparr>white = None, black = None\<rparr>\<rparr>)"

text \<open>
  \<^verbatim>\<open>reset\<close> of the second server copy (src/unnamed/part_000, lines 38 to 42). Its
  \<^verbatim>\<open>stopTimers\<close> passes \<^verbatim>\<open>(interval) => clearInterval(interval)\<close> to
  \<^verbatim>\<open>forEach\<close> where app.js passes \<^verbatim>\<open>clearInterval\<close>, which clears the same handles.
\<close>

definition reset_copy :: "'p engine \<Rightarrow> 'p server \<Rightarrow> 'p server" where
  "reset_copy E s =
     (let s1 = s\<lparr>chess := new_Chess E\<rparr>;
          s2 = s1\<lparr>timers := \<lparr>white = 600, black = 600\<rparr>\<rparr>
      in stopTimers s2)"

section \<open>The handlers\<close>

text \<open>
  \<^verbatim>\<open>!x\<close> on a seat: a seat holds \<^verbatim>\<open>null\<close> or a socket id, and the empty string
  is falsy as well.
\<close>

definition falsy :: "socket_id option \<Rightarrow> bool" where
  "falsy x = (case x of None \<Rightarrow> True | Some i \<Rightarrow> i = [])"

text \<open>
  \<^verbatim>\<open>GET /reset\<close>. The HTTP response of the route is not a socket message and is left
  out.
\<close>

definition get_reset :: "'p engine \<Rightarrow> 'p server \<Rightarrow> 'p server \<times> emission list" where
  "get_reset E s =
     (let s1 = reset E s
      in (s1, [ToAll (ResetMsg (fen E (chess s1)) (timers s1))]))"

text \<open>
  \<^verbatim>\<open>io.on('connection', ...)\<close>. The handler also stores \<^verbatim>\<open>socket.playerRole\<close>,
  which the server never reads.
\<close>

definition on_connection :: "'p engine \<Rightarrow> socket_id \<Rightarrow> 'p server \<Rightarrow> 'p server \<times> emission list" where
  "on_connection E sock s =
     (let (s1, out) =
            (if falsy (white (players s)) then
               (s\<lparr>players := (players s)\<lparr>white := Some sock\<rparr>\<rparr>,
                [ToSocket sock (PlayerRole ''w'')])
             else if falsy (black (players s)) then
               (startTimer White (s\<lparr>players := (players s)\<lparr>black := Some sock\<rparr>\<rparr>),
                [ToSocket sock (PlayerRole ''b'')])
             else (s, [ToSocket sock SpectatorRole]))
      in (s1, out @ [ToSocket sock (GameState (fen E (chess s1)) (timers s1))]))"

definition turnColor :: "'p engine \<Rightarrow> 'p server \<Rightarrow> color" where
  "turnColor E s = (if turn E (chess s) = ''w'' then White else Black)"

definition nextColor :: "color \<Rightarrow> color" where
  "nextColor tc = (if tc = White then Black else White)"

text \<open>\<^verbatim>\<open>move.promotion || 'q'\<close>: an absent or empty promotion becomes \<^verbatim>\<open>'q'\<close>.\<close>

definition serverMove :: "move_fields \<Rightarrow> server_move" where
  "serverMove mv =
     \<lparr>m_from = p_from mv, m_to = p_to mv,
      m_promotion = (case p_promotion mv of None \<Rightarrow> ''q'' | Some x \<Rightarrow> if x = [] then ''q'' else x)\<rparr>"

text \<open>
  \<^verbatim>\<open>socket.on('move', ...)\<close>. Every exit of the handler is a branch: the early return
  for another seat, the TypeError of a payload without fields and the error thrown by the
  engine (both caught, logged with \<^verbatim>\<open>console.error\<close> and answered with the message
  of the error), the \<^verbatim>\<open>null\<close> of an illegal move, and the accepted move.
\<close>

definition on_move :: "'p engine \<Rightarrow> socket_id \<Rightarrow> move_payload \<Rightarrow> 'p server \<Rightarrow> 'p server \<times> emission list" where
  "on_move E sock payload s =
     (let tc = turnColor E s;
          allowedSocketId = at_color tc (players s)
      in if Some sock \<noteq> allowedSocketId then (s, [])
         else
           (case payload of
              Nullish msg \<Rightarrow> (s, [ToSocket sock (InvalidMove msg)])
            | Obj mv \<Rightarrow>
                (case move E (chess s) (serverMove mv) of
                   Throws msg \<Rightarrow> (s, [ToSocket sock (InvalidMove msg)])
                 | Null \<Rightarrow> (s, [ToSocket sock (InvalidMove ''Invalid move'')])
                 | Moved p' \<Rightarrow>
                     (let s1 = stopTimers (s\<lparr>chess := p'\<rparr>);
                          s2 = startTimer (nextColor tc) s1;
                          out = [ToAll (MoveMsg (serverMove mv) (fen E (chess s2)) (timers s2))]
                      in if in_checkmate E (chess s2) then
                           (stopTimers s2,
                            out @ [ToAll (GameOver (''Checkmate! '' @
                                     (if tc = White then ''White'' else ''Black'') @ '' wins''))])
                         else if in_stalemate E (chess s2) then
                           (stopTimers s2, out @ [ToAll (GameOver ''Stalemate!'')])
                         else if in_draw E (chess s2) then
                           (stopTimers s2, out @ [ToAll (GameOver ''Draw!'')])
                         else (s2, out)))))"

definition on_offerDraw :: "socket_id \<Rightarrow> 'p server \<Rightarrow> 'p server \<times> emission list" where
  "on_offerDraw sock s = (s, [ToOthers sock DrawOffered])"

definition on_acceptDraw :: "socket_id \<Rightarrow> 'p server \<Rightarrow> 'p server \<times> emission list" where
  "on_acceptDraw sock s = (stopTimers s, [ToAll (GameOver ''Draw by agreement'')])"

definition on_resign :: "socket_id \<Rightarrow> 'p server \<Rightarrow> 'p server \<times> emission list" where
  "on_resign sock s =
     (let s1 = stopTimers s;
          resigningColor =
            (if Some sock = white (players s1) then ''White''
             else if Some sock = black (players s1) then ''Black'' else ''Player'');
          winner =
            (if resigningColor = ''White'' then ''Black''
             else if resigningColor = ''Black'' then ''White'' else ''Opponent'')
      in (s1, [ToAll (GameOver (resigningColor @ '' resigns. '' @ winner @ '' wins!''))]))"

definition on_disconnect :: "socket_id \<Rightarrow> 'p server \<Rightarrow> 'p server \<times> emission list" where
  "on_disconnect sock s =
     (if Some sock = white (players s) then
        (stopTimers (s\<lparr>players := (players s)\<lparr>white := None\<rparr>\<rparr>),
         [ToAll (PlayerDisconnected ''white'')])
      else if Some sock = black (players s) then
        (stopTimers (s\<lparr>players := (players s)\<lparr>black := None\<rparr>\<rparr>),
         [ToAll (PlayerDisconnected ''black'')])
      else (s, []))"

section \<open>Runs of the server\<close>

datatype event =
    Connection socket_id
  | Move socket_id move_payload
  | OfferDraw socket_id
  | AcceptDraw socket_id
  | Resign socket_id
  | Disconnect socket_id
  | Tick nat
  | GetReset

fun step :: "'p engine \<Rightarrow> event \<Rightarrow> 'p server \<Rightarrow> 'p server \<times> emission list" where
  "step E (Connection c) s = on_connection E c s"
| "step E (Move c m) s = on_move E c m s"
| "step E (OfferDraw c) s = on_offerDraw c s"
| "step E (AcceptDraw c) s = on_acceptDraw c s"
| "step E (Resign c) s = on_resign c s"
| "step E (Disconnect c) s = on_disconnect c s"
| "step E (Tick h) s = tick h s"
| "step E GetReset s = get_reset E s"

fun run :: "'p engine \<Rightarrow> event list \<Rightarrow> 'p server \<Rightarrow> 'p server \<times> emission list" where
  "run E [] s = (s, [])"
| "run E (ev # evs) s =
     (let (s1, out1) = step E ev s;
          (s2, out2) = run E evs s1
      in (s2, out1 @ out2))"

text \<open>The state of the server after the events \<open>evs\<close>, from the start of the process.\<close>

definition state_after :: "'p engine \<Rightarrow> event list \<Rightarrow> 'p server" where
  "state_after E evs = fst (run E evs (init E))"

text \<open>
  The states of the coordinator in the spec, read off the seats: \<open>Waiting\<close> is
  "fewer than two seats filled". The code stores no such state.
\<close>

definition Waiting :: "'p server \<Rightarrow> bool" where
  "Waiting s = (white (players s) = None \<or> black (players s) = None)"

section \<open>A scripted engine for the examples\<close>

text \<open>
  The examples need an engine that computes. This one knows the line
  1. f3 e5 2. g4 Qh4 mate and answers along it as chess.js does: a position is the number
  of moves played, the move of the line is legal, and the last position is checkmate.
  Every other move is answered with \<^verbatim>\<open>null\<close>.
\<close>

definition line :: "(string \<times> string) list" where
  "line = [(''f2'', ''f3''), (''e7'', ''e5''), (''g2'', ''g4''), (''d8'', ''h4'')]"

definition line_fen :: "nat \<Rightarrow> string" where
  "line_fen n =
     (if n = 0 then ''rnbqkbnr/pppppppp/8/8/8/8/PPPPPPPP/RNBQKBNR w KQkq - 0 1''
      else if n = 1 then ''rnbqkbnr/pppppppp/8/8/8/5P2/PPPPP1PP/RNBQKBNR b KQkq - 0 1''
      else if n = 2 then ''rnbqkbnr/pppp1ppp/8/4p3/8/5P2/PPPPP1PP/RNBQKBNR w KQkq e6 0 2''
      else if n = 3 then ''rnbqkbnr/pppp1ppp/8/4p3/6P1/5P2/PPPPP2P/RNBQKBNR b KQkq g3 0 2''
      else ''rnb1kbnr/pppp1ppp/8/4p3/6Pq/5P2/PPPPP2P/RNBQKBNR w KQkq - 1 3'')"

definition line_move :: "nat \<Rightarrow> server_move \<Rightarrow> nat move_result" where
  "line_move n m =
     (if n < length line \<and> line ! n = (m_from m, m_to m) then Moved (Suc n) else Null)"

definition line_engine :: "nat engine" where
  "line_engine =
     \<lparr>new_Chess = 0,
      turn = (\<lambda>n. if even n then ''w'' else ''b''),
      move = line_move,
      fen = line_fen,
      in_checkmate = (\<lambda>n. n = 4),
      in_stalemate = (\<lambda>n. False),
      in_draw = (\<lambda>n. False)\<rparr>"

definition mv :: "string \<Rightarrow> string \<Rightarrow> move_payload" where
  "mv a b = Obj \<lparr>p_from = a, p_to = b, p_promotion = Some ''q''\<rparr>"

section \<open>Predicates used in the statements\<close>

text \<open>
  The timer table of the runtime holds exactly the handles stored in
  \<^verbatim>\<open>timerIntervals\<close>, each under the color of its key, and at most one key is
  present.
\<close>

definition wf_timers :: "'p server \<Rightarrow> bool" where
  "wf_timers s =
     (scheduled s =
        (case white (timerIntervals s) of None \<Rightarrow> [] | Some h \<Rightarrow> [(h, White)]) @
        (case black (timerIntervals s) of None \<Rightarrow> [] | Some h \<Rightarrow> [(h, Black)]) \<and>
      (white (timerIntervals s) = None \<or> black (timerIntervals s) = None))"

definition within_600 :: "'p server \<Rightarrow> bool" where
  "within_600 s = (white (timers s) \<le> 600 \<and> black (timers s) \<le> 600)"

text \<open>
  A move event is accepted when its sender holds the seat of the side to move and the
  engine answers with a new position.
\<close>

definition accepted :: "'p engine \<Rightarrow> socket_id \<Rightarrow> move_payload \<Rightarrow> 'p server \<Rightarrow> bool" where
  "accepted E sock payload s =
     (Some sock = at_color (turnColor E s) (players s) \<and>
      (case payload of
         Nullish msg \<Rightarrow> False
       | Obj m \<Rightarrow>
           (case move E (chess s) (serverMove m) of
              Moved p' \<Rightarrow> True | Null \<Rightarrow> False | Throws msg \<Rightarrow> False)))"

text \<open>The event lists of the examples: two players \<open>a\<close> and \<open>b\<close> take their seats.\<close>

definition seated :: "event list" where
  "seated = [Connection ''a'', Connection ''b'']"

text \<open>
  Further event lists: \<open>a\<close> alone; the first move of the line; White resigns at once;
  the line up to the move before the mate; 599 ticks of White's countdown, then the 600th;
  then \<open>b\<close> leaves and \<open>c\<close> takes the black seat.
\<close>

definition one_seated :: "event list" where
  "one_seated = [Connection ''a'']"

definition after_f3 :: "event list" where
  "after_f3 = seated @ [Move ''a'' (mv ''f2'' ''f3'')]"

definition resigned :: "event list" where
  "resigned = seated @ [Resign ''a'']"

definition before_mate :: "event list" where
  "before_mate = after_f3 @ [Move ''b'' (mv ''e7'' ''e5''), Move ''a'' (mv ''g2'' ''g4'')]"

definition last_second :: "event list" where
  "last_second = seated @ replicate 599 (Tick 0)"

definition expired :: "event list" where
  "expired = last_second @ [Tick 0]"

definition restarted :: "event list" where
  "restarted = expired @ [Disconnect ''b'', Connection ''c'']"

section \<open>Auxiliary lemmas\<close>

lemma at_put_same [simp]: "at_color c (put_color c v r) = v"
  by (cases c) simp_all

lemma at_put_other [simp]: "c' \<noteq> c \<Longrightarrow> at_color c' (put_color c v r) = at_color c' r"
  by (cases c; cases c') simp_all

lemma put_at_id [simp]: "put_color c (at_color c r) r = r"
  by (cases c) simp_all

lemma stopTimers_fields [simp]:
  "chess (stopTimers s) = chess s"
  "players (stopTimers s) = players s"
  "timers (stopTimers s) = timers s"
  "timerIntervals (stopTimers s) = no_intervals"
  "next_handle (stopTimers s) = next_handle s"
  by (simp_all add: stopTimers_def)

lemma stopTimers_scheduled: "wf_timers s \<Longrightarrow> scheduled (stopTimers s) = []"
  by (auto simp: wf_timers_def stopTimers_def values_of_def clearInterval_def split: option.splits)

lemma wf_stopTimers: "wf_timers s \<Longrightarrow> wf_timers (stopTimers s)"
  using stopTimers_scheduled [of s] by (simp add: wf_timers_def no_intervals_def)

lemma startTimer_fields [simp]:
  "chess (startTimer c s) = chess s"
  "players (startTimer c s) = players s"
  "timers (startTimer c s) = timers s"
  "timerIntervals (startTimer c s) = put_color c (Some (next_handle s)) no_intervals"
  "next_handle (startTimer c s) = Suc (next_handle s)"
  by (simp_all add: startTimer_def Let_def)

lemma startTimer_scheduled:
  "wf_timers s \<Longrightarrow> scheduled (startTimer c s) = [(next_handle s, c)]"
  by (simp add: startTimer_def Let_def stopTimers_scheduled)

lemma wf_startTimer: "wf_timers s \<Longrightarrow> wf_timers (startTimer c s)"
  using startTimer_scheduled [of s c]
  by (cases c) (simp_all add: wf_timers_def no_intervals_def)

lemma wf_update [simp]:
  "wf_timers (s\<lparr>chess := p\<rparr>) = wf_timers s"
  "wf_timers (s\<lparr>players := q\<rparr>) = wf_timers s"
  "wf_timers (s\<lparr>timers := t\<rparr>) = wf_timers s"
  by (simp_all add: wf_timers_def)

lemma wf_init: "wf_timers (init E)"
  by (simp add: wf_timers_def init_def no_intervals_def)

lemma wf_interval_callback: "wf_timers s \<Longrightarrow> wf_timers (fst (interval_callback c s))"
  by (simp add: interval_callback_def Let_def wf_stopTimers)

lemma wf_tick: "wf_timers s \<Longrightarrow> wf_timers (fst (tick h s))"
  by (simp add: tick_def wf_interval_callback split: option.splits)

lemma wf_reset: "wf_timers s \<Longrightarrow> wf_timers (reset E s)"
  by (simp add: reset_def Let_def wf_stopTimers)

lemma wf_on_connection: "wf_timers s \<Longrightarrow> wf_timers (fst (on_connection E c s))"
  by (simp add: on_connection_def Let_def wf_startTimer split: prod.splits if_splits)

lemma wf_on_move: "wf_timers s \<Longrightarrow> wf_timers (fst (on_move E c m s))"
  by (simp add: on_move_def Let_def wf_startTimer wf_stopTimers
      split: move_payload.splits move_result.splits)

lemma wf_on_resign: "wf_timers s \<Longrightarrow> wf_timers (fst (on_resign c s))"
  by (simp add: on_resign_def Let_def wf_stopTimers)

lemma wf_on_disconnect: "wf_timers s \<Longrightarrow> wf_timers (fst (on_disconnect c s))"
  by (simp add: on_disconnect_def wf_stopTimers)

lemma wf_step: "wf_timers s \<Longrightarrow> wf_timers (fst (step E ev s))"
  by (cases ev)
     (simp_all add: wf_on_connection wf_on_move wf_on_resign wf_on_disconnect wf_tick
        wf_reset wf_stopTimers on_offerDraw_def on_acceptDraw_def get_reset_def Let_def)

lemma fst_run_Cons: "fst (run E (ev # evs) s) = fst (run E evs (fst (step E ev s)))"
  by (simp add: Let_def split: prod.splits)

lemma fst_run_append: "fst (run E (xs @ ys) s) = fst (run E ys (fst (run E xs s)))"
  by (induction xs arbitrary: s) (simp_all add: fst_run_Cons del: run.simps(2))

lemma state_after_append: "state_after E (xs @ ys) = fst (run E ys (state_after E xs))"
  by (simp add: state_after_def fst_run_append)

lemma wf_run: "wf_timers s \<Longrightarrow> wf_timers (fst (run E evs s))"
  by (induction evs arbitrary: s) (simp_all add: fst_run_Cons wf_step del: run.simps(2))

lemma wf_state_after: "wf_timers (state_after E evs)"
  by (simp add: state_after_def wf_run wf_init)

lemma put_put [simp]: "put_color c v (put_color c w r) = put_color c v r"
  by (cases c) simp_all

lemma within_stopTimers [simp]: "within_600 (stopTimers s) = within_600 s"
  by (simp add: within_600_def)

lemma within_startTimer [simp]: "within_600 (startTimer c s) = within_600 s"
  by (simp add: within_600_def)

lemma within_update [simp]:
  "within_600 (s\<lparr>chess := p\<rparr>) = within_600 s"
  "within_600 (s\<lparr>players := q\<rparr>) = within_600 s"
  by (simp_all add: within_600_def)

lemma within_interval_callback: "within_600 s \<Longrightarrow> within_600 (fst (interval_callback c s))"
  by (cases c) (simp_all add: interval_callback_def Let_def within_600_def)

lemma within_step: "within_600 s \<Longrightarrow> within_600 (fst (step E ev s))"
proof (cases ev)
  case (Connection c)
  assume "within_600 s"
  then show ?thesis using Connection
    by (simp add: on_connection_def Let_def split: prod.splits if_splits)
next
  case (Move c m)
  assume "within_600 s"
  then show ?thesis using Move
    by (simp add: on_move_def Let_def split: move_payload.splits move_result.splits)
next
  case (Tick h)
  assume "within_600 s"
  then show ?thesis using Tick
    by (simp add: tick_def within_interval_callback split: option.splits)
next
  case GetReset
  then show ?thesis
    by (simp add: get_reset_def reset_def Let_def within_600_def)
qed (simp_all add: on_offerDraw_def on_acceptDraw_def on_resign_def on_disconnect_def Let_def)

lemma within_run: "within_600 s \<Longrightarrow> within_600 (fst (run E evs s))"
  by (induction evs arbitrary: s) (simp_all add: fst_run_Cons within_step del: run.simps(2))

lemma within_init: "within_600 (init E)"
  by (simp add: within_600_def init_def)

lemma within_state_after: "within_600 (state_after E evs)"
  by (simp add: state_after_def within_run within_init)

lemma run_ticks:
  "map_of (scheduled s) h = Some c \<Longrightarrow> int n < at_color c (timers s) \<Longrightarrow>
   fst (run E (replicate n (Tick h)) s) =
     s\<lparr>timers := put_color c (at_color c (timers s) - int n) (timers s)\<rparr>"
proof (induction n arbitrary: s)
  case 0
  then show ?case by simp
next
  case (Suc n)
  let ?s1 = "s\<lparr>timers := put_color c (at_color c (timers s) - 1) (timers s)\<rparr>"
  have st: "fst (step E (Tick h) s) = ?s1"
    using Suc.prems by (simp add: tick_def interval_callback_def Let_def)
  have "fst (run E (replicate n (Tick h)) ?s1) =
        ?s1\<lparr>timers := put_color c (at_color c (timers ?s1) - int n) (timers ?s1)\<rparr>"
    using Suc.prems by (intro Suc.IH) simp_all
  then show ?case
    by (simp add: fst_run_Cons st algebra_simps del: run.simps(2) step.simps)
qed

lemma line_engine_simps [simp]:
  "new_Chess line_engine = 0"
  "turn line_engine n = (if even n then ''w'' else ''b'')"
  "move line_engine = line_move"
  "fen line_engine = line_fen"
  "in_checkmate line_engine n = (n = 4)"
  "in_stalemate line_engine n = False"
  "in_draw line_engine n = False"
  by (simp_all add: line_engine_def)

lemma seated_state:
  "state_after line_engine seated =
     \<lparr>chess = 0, players = \<lparr>white = Some ''a'', black = Some ''b''\<rparr>,
      timers = \<lparr>white = 600, black = 600\<rparr>,
      timerIntervals = \<lparr>white = Some 0, black = None\<rparr>,
      scheduled = [(0, White)], next_handle = Suc 0\<rparr>"
  by (simp add: state_after_def seated_def init_def on_connection_def falsy_def Let_def
      startTimer_def stopTimers_def no_intervals_def values_of_def line_engine_def)

lemma seated_ticks:
  "n < 600 \<Longrightarrow> state_after line_engine (seated @ replicate n (Tick 0)) =
     \<lparr>chess = 0, players = \<lparr>white = Some ''a'', black = Some ''b''\<rparr>,
      timers = \<lparr>white = 600 - int n, black = 600\<rparr>,
      timerIntervals = \<lparr>white = Some 0, black = None\<rparr>,
      scheduled = [(0, White)], next_handle = Suc 0\<rparr>"
  by (simp add: state_after_append seated_state run_ticks [where c = White])

lemma state_after_snoc: "state_after E (evs @ [ev]) = fst (step E ev (state_after E evs))"
  by (simp add: state_after_append split: prod.splits)

lemma state_after_snoc2:
  "state_after E (evs @ [ev, ev']) = fst (step E ev' (fst (step E ev (state_after E evs))))"
  using state_after_snoc [of E "evs @ [ev]" ev'] by (simp add: state_after_snoc)

lemma line_move_simps [simp]:
  "line_move 0 m = (if (m_from m, m_to m) = (''f2'', ''f3'') then Moved (Suc 0) else Null)"
  "line_move (Suc 0) m = (if (m_from m, m_to m) = (''e7'', ''e5'') then Moved (Suc (Suc 0)) else Null)"
  "line_move (Suc (Suc 0)) m = (if (m_from m, m_to m) = (''g2'', ''g4'') then Moved (Suc (Suc (Suc 0))) else Null)"
  "line_move (Suc (Suc (Suc 0))) m = (if (m_from m, m_to m) = (''d8'', ''h4'') then Moved (Suc (Suc (Suc (Suc 0)))) else Null)"
  by (auto simp: line_move_def line_def)

lemma serverMove_mv [simp]:
  "serverMove \<lparr>p_from = a, p_to = b, p_promotion = Some ''q''\<rparr> =
     \<lparr>m_from = a, m_to = b, m_promotion = ''q''\<rparr>"
  by (simp add: serverMove_def)

lemmas eval_defs = on_move_def on_connection_def on_resign_def on_disconnect_def on_acceptDraw_def
  tick_def interval_callback_def turnColor_def nextColor_def mv_def
  startTimer_def stopTimers_def values_of_def clearInterval_def
  no_intervals_def falsy_def Let_def

lemma after_f3_state:
  "state_after line_engine after_f3 =
     \<lparr>chess = Suc 0, players = \<lparr>white = Some ''a'', black = Some ''b''\<rparr>,
      timers = \<lparr>white = 600, black = 600\<rparr>,
      timerIntervals = \<lparr>white = None, black = Some (Suc 0)\<rparr>,
      scheduled = [(Suc 0, Black)], next_handle = Suc (Suc 0)\<rparr>"
  by (simp add: after_f3_def state_after_snoc seated_state eval_defs)

lemma before_mate_state:
  "state_after line_engine before_mate =
     \<lparr>chess = Suc (Suc (Suc 0)), players = \<lparr>white = Some ''a'', black = Some ''b''\<rparr>,
      timers = \<lparr>white = 600, black = 600\<rparr>,
      timerIntervals = \<lparr>white = None, black = Some (Suc (Suc (Suc 0)))\<rparr>,
      scheduled = [(Suc (Suc (Suc 0)), Black)], next_handle = Suc (Suc (Suc (Suc 0)))\<rparr>"
  by (simp add: before_mate_def state_after_snoc2 after_f3_state eval_defs)

lemma one_seated_state:
  "state_after line_engine one_seated =
     \<lparr>chess = 0, players = \<lparr>white = Some ''a'', black = None\<rparr>,
      timers = \<lparr>white = 600, black = 600\<rparr>,
      timerIntervals = \<lparr>white = None, black = None\<rparr>,
      scheduled = [], next_handle = 0\<rparr>"
  by (simp add: one_seated_def state_after_def init_def eval_defs)

lemma resigned_state:
  "state_after line_engine resigned =
     \<lparr>chess = 0, players = \<lparr>white = Some ''a'', black = Some ''b''\<rparr>,
      timers = \<lparr>white = 600, black = 600\<rparr>,
      timerIntervals = \<lparr>white = None, black = None\<rparr>,
      scheduled = [], next_handle = Suc 0\<rparr>"
  by (simp add: resigned_def state_after_snoc seated_state eval_defs)

lemma last_second_state:
  "state_after line_engine last_second =
     \<lparr>chess = 0, players = \<lparr>white = Some ''a'', black = Some ''b''\<rparr>,
      timers = \<lparr>white = 1, black = 600\<rparr>,
      timerIntervals = \<lparr>white = Some 0, black = None\<rparr>,
      scheduled = [(0, White)], next_handle = Suc 0\<rparr>"
  using seated_ticks [of 599] by (simp add: last_second_def)

lemma expired_state:
  "state_after line_engine expired =
     \<lparr>chess = 0, players = \<lparr>white = Some ''a'', black = Some ''b''\<rparr>,
      timers = \<lparr>white = 0, black = 600\<rparr>,
      timerIntervals = \<lparr>white = None, black = None\<rparr>,
      scheduled = [], next_handle = Suc 0\<rparr>"
  by (simp add: expired_def state_after_snoc last_second_state eval_defs)

lemma restarted_state:
  "state_after line_engine restarted =
     \<lparr>chess = 0, players = \<lparr>white = Some ''a'', black = Some ''c''\<rparr>,
      timers = \<lparr>white = 0, black = 600\<rparr>,
      timerIntervals = \<lparr>white = Some (Suc 0), black = None\<rparr>,
      scheduled = [(Suc 0, White)], next_handle = Suc (Suc 0)\<rparr>"
  by (simp add: restarted_def state_after_snoc2 expired_state eval_defs)

section \<open>The claims\<close>

subsection \<open>C1: moves after a terminal announcement\<close>

text \<open>
  Claim C1, as stated, fails. White's player \<open>a\<close> resigns, which is announced to all
  with \<^verbatim>\<open>gameOver\<close>; then \<open>a\<close> plays f2-f3: the position changes, Black's
  countdown is scheduled and the move is broadcast.
\<close>

theorem move_after_resignation_counterexample:
  "snd (on_resign ''a'' (state_after line_engine seated)) =
     [ToAll (GameOver ''White resigns. Black wins!'')] \<and>
   chess (state_after line_engine resigned) = 0 \<and>
   scheduled (state_after line_engine resigned) = [] \<and>
   chess (fst (on_move line_engine ''a'' (mv ''f2'' ''f3'') (state_after line_engine resigned))) = 1 \<and>
   scheduled (fst (on_move line_engine ''a'' (mv ''f2'' ''f3'') (state_after line_engine resigned))) =
     [(1, Black)] \<and>
   list_ex is_broadcast
     (snd (on_move line_engine ''a'' (mv ''f2'' ''f3'') (state_after line_engine resigned)))"
  by (simp add: resigned_state seated_state eval_defs)

text \<open>
  Claim C1, amended. The server records no outcome. In every state a move event leaves
  the state as it is and broadcasts nothing if and only if it is not accepted, that is,
  unless its sender holds the seat of the side to move and the engine answers with a new
  position. Accepting a draw, resigning and a tick (also the one at which a time runs
  out) change neither the seats nor the position, so they do not change whether a move is
  accepted. An accepted move is applied whatever has been announced: the position becomes
  the one the engine answers, seats and remaining times stay as they are, and the messages
  are the broadcast of the move with the new position and the times, followed by a
  \<^verbatim>\<open>gameOver\<close> when the new position is a checkmate, a stalemate or a draw. Unless it
  is one of these, the opponent of the side that moved gets the new interval (Black after
  a move of White, White after a move of Black); when it is, \<^verbatim>\<open>timerIntervals\<close> is
  empty. In a state that the server can reach this interval is the only one scheduled,
  and none is scheduled when the move ends the game.
\<close>

theorem accepted_move_is_applied:
  "((fst (on_move E sock payload s) = s \<and>
     \<not> list_ex is_broadcast (snd (on_move E sock payload s))) = (\<not> accepted E sock payload s)) \<and>
   accepted E sock payload (fst (on_acceptDraw c s)) = accepted E sock payload s \<and>
   accepted E sock payload (fst (on_resign c s)) = accepted E sock payload s \<and>
   accepted E sock payload (fst (tick h s)) = accepted E sock payload s \<and>
   (Some sock = at_color (turnColor E s) (players s) \<and>
    move E (chess s) (serverMove m) = Moved p' \<longrightarrow>
      chess (fst (on_move E sock (Obj m) s)) = p' \<and>
      players (fst (on_move E sock (Obj m) s)) = players s \<and>
      timers (fst (on_move E sock (Obj m) s)) = timers s \<and>
      next_handle (fst (on_move E sock (Obj m) s)) = Suc (next_handle s) \<and>
      timerIntervals (fst (on_move E sock (Obj m) s)) =
        (if in_checkmate E p' \<or> in_stalemate E p' \<or> in_draw E p'
         then \<lparr>white = None, black = None\<rparr>
         else if turn E (chess s) = ''w''
         then \<lparr>white = None, black = Some (next_handle s)\<rparr>
         else \<lparr>white = Some (next_handle s), black = None\<rparr>) \<and>
      snd (on_move E sock (Obj m) s) =
        ToAll (MoveMsg (serverMove m) (fen E p') (timers s)) #
        (if in_checkmate E p'
         then [ToAll (GameOver (if turn E (chess s) = ''w''
                                then ''Checkmate! White wins'' else ''Checkmate! Black wins''))]
         else if in_stalemate E p' then [ToAll (GameOver ''Stalemate!'')]
         else if in_draw E p' then [ToAll (GameOver ''Draw!'')]
         else [])) \<and>
   (Some sock = at_color (turnColor E (state_after E evs)) (players (state_after E evs)) \<and>
    move E (chess (state_after E evs)) (serverMove m) = Moved p' \<longrightarrow>
      scheduled (fst (on_move E sock (Obj m) (state_after E evs))) =
        (if in_checkmate E p' \<or> in_stalemate E p' \<or> in_draw E p' then []
         else if turn E (chess (state_after E evs)) = ''w''
         then [(next_handle (state_after E evs), Black)]
         else [(next_handle (state_after E evs), White)]))"
proof -
  have a: "(fst (on_move E sock payload s) = s \<and>
     \<not> list_ex is_broadcast (snd (on_move E sock payload s))) = (\<not> accepted E sock payload s)"
  proof (cases "Some sock = at_color (turnColor E s) (players s)")
    case False
    then show ?thesis by (simp add: on_move_def accepted_def Let_def)
  next
    case seat: True
    show ?thesis
    proof (cases payload)
      case (Nullish msg)
      with seat show ?thesis by (simp add: on_move_def accepted_def Let_def)
    next
      case (Obj m)
      show ?thesis
      proof (cases "move E (chess s) (serverMove m)")
        case (Moved p')
        with seat Obj show ?thesis by (simp add: on_move_def accepted_def Let_def)
      next
        case Null
        with seat Obj show ?thesis by (simp add: on_move_def accepted_def Let_def)
      next
        case (Throws msg)
        with seat Obj show ?thesis by (simp add: on_move_def accepted_def Let_def)
      qed
    qed
  qed
  have b: "accepted E sock payload (fst (on_acceptDraw c s)) = accepted E sock payload s"
    by (cases payload) (simp_all add: accepted_def on_acceptDraw_def turnColor_def)
  have c: "accepted E sock payload (fst (on_resign c s)) = accepted E sock payload s"
    by (cases payload) (simp_all add: accepted_def on_resign_def turnColor_def Let_def)
  have d: "accepted E sock payload (fst (tick h s)) = accepted E sock payload s"
    by (cases "map_of (scheduled s) h"; cases payload)
       (simp_all add: accepted_def tick_def interval_callback_def turnColor_def Let_def)
  have e: "Some sock = at_color (turnColor E s) (players s) \<and>
    move E (chess s) (serverMove m) = Moved p' \<longrightarrow>
      chess (fst (on_move E sock (Obj m) s)) = p' \<and>
      players (fst (on_move E sock (Obj m) s)) = players s \<and>
      timers (fst (on_move E sock (Obj m) s)) = timers s \<and>
      next_handle (fst (on_move E sock (Obj m) s)) = Suc (next_handle s) \<and>
      timerIntervals (fst (on_move E sock (Obj m) s)) =
        (if in_checkmate E p' \<or> in_stalemate E p' \<or> in_draw E p'
         then \<lparr>white = None, black = None\<rparr>
         else if turn E (chess s) = ''w''
         then \<lparr>white = None, black = Some (next_handle s)\<rparr>
         else \<lparr>white = Some (next_handle s), black = None\<rparr>) \<and>
      snd (on_move E sock (Obj m) s) =
        ToAll (MoveMsg (serverMove m) (fen E p') (timers s)) #
        (if in_checkmate E p'
         then [ToAll (GameOver (if turn E (chess s) = ''w''
                                then ''Checkmate! White wins'' else ''Checkmate! Black wins''))]
         else if in_stalemate E p' then [ToAll (GameOver ''Stalemate!'')]
         else if in_draw E p' then [ToAll (GameOver ''Draw!'')]
         else [])"
    by (simp add: on_move_def Let_def turnColor_def nextColor_def no_intervals_def)
  have f: "Some sock = at_color (turnColor E (state_after E evs)) (players (state_after E evs)) \<and>
    move E (chess (state_after E evs)) (serverMove m) = Moved p' \<longrightarrow>
      scheduled (fst (on_move E sock (Obj m) (state_after E evs))) =
        (if in_checkmate E p' \<or> in_stalemate E p' \<or> in_draw E p' then []
         else if turn E (chess (state_after E evs)) = ''w''
         then [(next_handle (state_after E evs), Black)]
         else [(next_handle (state_after E evs), White)])"
  proof -
    let ?s = "state_after E evs"
    let ?s1 = "stopTimers (?s\<lparr>chess := p'\<rparr>)"
    have w1: "wf_timers ?s1" by (simp add: wf_stopTimers wf_state_after)
    have s2: "scheduled (startTimer k ?s1) = [(next_handle ?s, k)]" for k
      using startTimer_scheduled [OF w1, of k] by simp
    have s3: "scheduled (stopTimers (startTimer k ?s1)) = []" for k
      using wf_startTimer [OF w1, of k] by (rule stopTimers_scheduled)
    show ?thesis
      by (simp add: on_move_def Let_def s2 s3 turnColor_def nextColor_def)
  qed
  from a b c d e f show ?thesis by blast
qed

text \<open>
  After White's resignation the move f2-f3 of \<open>a\<close> is applied and broadcast, and
  Black's countdown is scheduled.
\<close>

theorem accepted_move_is_applied_witness:
  "chess (fst (on_move line_engine ''a'' (mv ''f2'' ''f3'') (state_after line_engine resigned))) = 1 \<and>
   snd (on_move line_engine ''a'' (mv ''f2'' ''f3'') (state_after line_engine resigned)) =
     [ToAll (MoveMsg \<lparr>m_from = ''f2'', m_to = ''f3'', m_promotion = ''q''\<rparr>
               ''rnbqkbnr/pppppppp/8/8/8/5P2/PPPPP1PP/RNBQKBNR b KQkq - 0 1''
               \<lparr>white = 600, black = 600\<rparr>)] \<and>
   scheduled (fst (on_move line_engine ''a'' (mv ''f2'' ''f3'') (state_after line_engine resigned))) =
     [(1, Black)]"
proof -
  let ?s = "state_after line_engine resigned"
  let ?m = "\<lparr>p_from = ''f2'', p_to = ''f3'', p_promotion = Some ''q''\<rparr>"
  have seat: "Some ''a'' = at_color (turnColor line_engine ?s) (players ?s)"
    by (simp add: resigned_state turnColor_def)
  have ok: "move line_engine (chess ?s) (serverMove ?m) = Moved (Suc 0)"
    by (simp add: resigned_state)
  note th = accepted_move_is_applied
    [of line_engine "''a''" "Obj ?m" ?s "''a''" 0 ?m "Suc 0" resigned]
  from th seat ok have
    a: "chess (fst (on_move line_engine ''a'' (Obj ?m) ?s)) = Suc 0" by blast
  from th seat ok have
    b: "snd (on_move line_engine ''a'' (Obj ?m) ?s) =
        ToAll (MoveMsg (serverMove ?m) (fen line_engine (Suc 0)) (timers ?s)) #
        (if in_checkmate line_engine (Suc 0)
         then [ToAll (GameOver (if turn line_engine (chess ?s) = ''w''
                                then ''Checkmate! White wins'' else ''Checkmate! Black wins''))]
         else if in_stalemate line_engine (Suc 0) then [ToAll (GameOver ''Stalemate!'')]
         else if in_draw line_engine (Suc 0) then [ToAll (GameOver ''Draw!'')]
         else [])" by blast
  from th seat ok have
    c: "scheduled (fst (on_move line_engine ''a'' (Obj ?m) ?s)) =
        (if in_checkmate line_engine (Suc 0) \<or> in_stalemate line_engine (Suc 0) \<or>
            in_draw line_engine (Suc 0) then []
         else if turn line_engine (chess ?s) = ''w''
         then [(next_handle ?s, Black)]
         else [(next_handle ?s, White)])" by blast
  from a have a': "chess (fst (on_move line_engine ''a'' (mv ''f2'' ''f3'') ?s)) = 1"
    by (simp add: mv_def)
  from b have b': "snd (on_move line_engine ''a'' (mv ''f2'' ''f3'') ?s) =
     [ToAll (MoveMsg \<lparr>m_from = ''f2'', m_to = ''f3'', m_promotion = ''q''\<rparr>
               ''rnbqkbnr/pppppppp/8/8/8/5P2/PPPPP1PP/RNBQKBNR b KQkq - 0 1''
               \<lparr>white = 600, black = 600\<rparr>)]"
    by (simp add: mv_def resigned_state line_fen_def)
  from c have c': "scheduled (fst (on_move line_engine ''a'' (mv ''f2'' ''f3'') ?s)) = [(1, Black)]"
    by (simp add: mv_def resigned_state)
  from a' b' c' show ?thesis by blast
qed

subsection \<open>C2: a time runs out\<close>

text \<open>
  Claim C2, as stated, fails. Both players are seated and White's countdown has ticked
  599 times. The 600th tick takes White's time to 0 and broadcasts \<^verbatim>\<open>timerUpdate\<close>
  and \<^verbatim>\<open>timeUp('w')\<close>; no \<^verbatim>\<open>gameOver\<close> is among its messages.
\<close>

theorem timeout_without_gameOver_counterexample:
  "white (timers (state_after line_engine last_second)) = 1 \<and>
   players (state_after line_engine last_second) = \<lparr>white = Some ''a'', black = Some ''b''\<rparr> \<and>
   scheduled (state_after line_engine last_second) = [(0, White)] \<and>
   white (timers (fst (tick 0 (state_after line_engine last_second)))) = 0 \<and>
   snd (tick 0 (state_after line_engine last_second)) =
     [ToAll (TimerUpdate \<lparr>white = 0, black = 600\<rparr>), ToAll (TimeUp ''w'')] \<and>
   \<not> list_ex is_gameOver (snd (tick 0 (state_after line_engine last_second)))"
  by (simp add: last_second_state eval_defs)

text \<open>
  Claim C2, amended. In every state that the server can reach, a tick that takes the
  remaining time of its side to 0 or below broadcasts \<^verbatim>\<open>timerUpdate\<close> and then
  \<^verbatim>\<open>timeUp\<close> with the first letter of that side, exactly one \<^verbatim>\<open>timeUp\<close> and
  no \<^verbatim>\<open>gameOver\<close>; it leaves no interval scheduled, so that no tick fires after it
  until a countdown is started again.
\<close>

theorem expiry_tick_emits_timeUp_only:
  assumes "map_of (scheduled (state_after E evs)) h = Some c"
    and "at_color c (timers (state_after E evs)) \<le> 1"
  shows "snd (tick h (state_after E evs)) =
           [ToAll (TimerUpdate (put_color c (at_color c (timers (state_after E evs)) - 1)
                                  (timers (state_after E evs)))),
            ToAll (TimeUp (first_letter c))] \<and>
         length (filter is_timeUp (snd (tick h (state_after E evs)))) = 1 \<and>
         \<not> list_ex is_gameOver (snd (tick h (state_after E evs))) \<and>
         scheduled (fst (tick h (state_after E evs))) = [] \<and>
         tick h' (fst (tick h (state_after E evs))) = (fst (tick h (state_after E evs)), [])"
proof -
  let ?s = "state_after E evs"
  let ?s1 = "?s\<lparr>timers := put_color c (at_color c (timers ?s) - 1) (timers ?s)\<rparr>"
  have t: "tick h ?s = (stopTimers ?s1,
             [ToAll (TimerUpdate (timers ?s1)), ToAll (TimeUp (first_letter c))])"
    using assms by (simp add: tick_def interval_callback_def Let_def)
  have "wf_timers ?s1" by (simp add: wf_state_after)
  then have e: "scheduled (stopTimers ?s1) = []" by (rule stopTimers_scheduled)
  then have n: "tick h' (stopTimers ?s1) = (stopTimers ?s1, [])" by (simp add: tick_def)
  show ?thesis by (simp add: t e n)
qed

text \<open>
  The 600th tick of White's countdown.
\<close>

theorem expiry_tick_emits_timeUp_only_witness:
  "snd (tick 0 (state_after line_engine last_second)) =
     [ToAll (TimerUpdate \<lparr>white = 0, black = 600\<rparr>), ToAll (TimeUp ''w'')] \<and>
   scheduled (fst (tick 0 (state_after line_engine last_second))) = []"
proof -
  have a: "map_of (scheduled (state_after line_engine last_second)) 0 = Some White"
    by (simp add: last_second_state)
  have b: "at_color White (timers (state_after line_engine last_second)) \<le> 1"
    by (simp add: last_second_state)
  show ?thesis
    using expiry_tick_emits_timeUp_only [OF a b] by (simp add: last_second_state)
qed

subsection \<open>C3: starting a countdown at zero\<close>

text \<open>
  Claim C3, as stated, fails. White's time has run out (600 ticks); \<open>b\<close> disconnects
  and \<open>c\<close> takes the black seat, which starts White's countdown although White's time
  is 0: an interval is scheduled, and its first tick takes White's time to -1.
\<close>

theorem negative_time_counterexample:
  "white (timers (state_after line_engine expired)) = 0 \<and>
   scheduled (state_after line_engine expired) = [] \<and>
   white (timers (state_after line_engine restarted)) = 0 \<and>
   scheduled (state_after line_engine restarted) = [(1, White)] \<and>
   white (timers (state_after line_engine (restarted @ [Tick 1]))) = - 1 \<and>
   \<not> 0 \<le> white (timers (state_after line_engine (restarted @ [Tick 1])))"
  by (simp add: expired_state restarted_state state_after_snoc eval_defs)

text \<open>
  Claim C3, amended. \<^verbatim>\<open>startTimer\<close> has no guard on the remaining time: in every
  state that the server can reach it schedules exactly one interval, for the side given,
  and the tick of that interval lowers that side's remaining time by one, whatever it
  was. In every reachable state both remaining times are at most 600.
\<close>

theorem startTimer_schedules_whatever_the_time:
  "scheduled (startTimer c (state_after E evs)) = [(next_handle (state_after E evs), c)] \<and>
   at_color c (timers (fst (tick (next_handle (state_after E evs))
                              (startTimer c (state_after E evs))))) =
     at_color c (timers (state_after E evs)) - 1 \<and>
   white (timers (state_after E evs)) \<le> 600 \<and>
   black (timers (state_after E evs)) \<le> 600"
proof -
  let ?s = "state_after E evs"
  have a: "scheduled (startTimer c ?s) = [(next_handle ?s, c)]"
    by (simp add: startTimer_scheduled wf_state_after)
  then have b: "at_color c (timers (fst (tick (next_handle ?s) (startTimer c ?s)))) =
                at_color c (timers ?s) - 1"
    by (simp add: tick_def interval_callback_def Let_def)
  have "within_600 ?s" by (rule within_state_after)
  with a b show ?thesis by (simp add: within_600_def)
qed

subsection \<open>C4: accepting a draw\<close>

text \<open>
  Claim C4, as stated, fails. With \<open>a\<close> alone on the white seat the coordinator is
  \<open>Waiting\<close>, and \<^verbatim>\<open>acceptDraw\<close> still broadcasts the draw by agreement.
\<close>

theorem acceptDraw_while_waiting_counterexample:
  "Waiting (state_after line_engine one_seated) \<and>
   snd (on_acceptDraw ''a'' (state_after line_engine one_seated)) =
     [ToAll (GameOver ''Draw by agreement'')] \<and>
   on_acceptDraw ''a'' (state_after line_engine one_seated) \<noteq>
     (state_after line_engine one_seated, [])"
  by (simp add: one_seated_state Waiting_def on_acceptDraw_def)

text \<open>
  Claim C4, amended. \<^verbatim>\<open>acceptDraw\<close> checks no state: in every state and from any
  connection it broadcasts \<^verbatim>\<open>gameOver\<close> with the text "Draw by agreement" and empties
  \<^verbatim>\<open>timerIntervals\<close>; position, seats and remaining times stay as they are, and from
  every state that the server can reach no interval stays scheduled.
\<close>

theorem acceptDraw_in_every_state:
  "snd (on_acceptDraw sock s) = [ToAll (GameOver ''Draw by agreement'')] \<and>
   chess (fst (on_acceptDraw sock s)) = chess s \<and>
   players (fst (on_acceptDraw sock s)) = players s \<and>
   timers (fst (on_acceptDraw sock s)) = timers s \<and>
   timerIntervals (fst (on_acceptDraw sock s)) = no_intervals \<and>
   scheduled (fst (on_acceptDraw sock (state_after E evs))) = []"
  by (simp add: on_acceptDraw_def stopTimers_scheduled wf_state_after)

subsection \<open>C5: a move from another seat\<close>

text \<open>
  Claim C5. A move event whose sender does not hold the seat of the side to move is
  dropped in silence: the state (position, remaining times, intervals, seats) is the
  same and nothing is emitted, neither to all nor to the sender.
\<close>

theorem move_from_other_seat_is_dropped:
  "Some sock \<noteq> at_color (turnColor E s) (players s) \<Longrightarrow> on_move E sock payload s = (s, [])"
  by (simp add: on_move_def Let_def)

text \<open>
  Black's player sends a move while it is White's turn.
\<close>

theorem move_from_other_seat_is_dropped_witness:
  "Some ''b'' \<noteq> at_color (turnColor line_engine (state_after line_engine seated))
                   (players (state_after line_engine seated)) \<and>
   on_move line_engine ''b'' (mv ''e7'' ''e5'') (state_after line_engine seated) =
     (state_after line_engine seated, [])"
proof -
  have h: "Some ''b'' \<noteq> at_color (turnColor line_engine (state_after line_engine seated))
                   (players (state_after line_engine seated))"
    by (simp add: seated_state turnColor_def)
  show ?thesis
    using h move_from_other_seat_is_dropped [OF h] by simp
qed

subsection \<open>C6: an illegal move\<close>

text \<open>
  Claim C6. When the sender holds the seat of the side to move and the engine rejects
  the move (it answers \<^verbatim>\<open>null\<close> or throws), the state is unchanged (position,
  remaining times, intervals), nothing is broadcast, and exactly one message is emitted:
  an \<^verbatim>\<open>invalidMove\<close> to the sender.
\<close>

theorem illegal_move_only_notifies_sender:
  assumes "Some sock = at_color (turnColor E s) (players s)"
    and "move E (chess s) (serverMove m) = Null \<or> move E (chess s) (serverMove m) = Throws msg"
  shows "fst (on_move E sock (Obj m) s) = s \<and>
         \<not> list_ex is_broadcast (snd (on_move E sock (Obj m) s)) \<and>
         length (snd (on_move E sock (Obj m) s)) = 1 \<and>
         list_all (is_invalidMove_to sock) (snd (on_move E sock (Obj m) s))"
  using assms by (auto simp: on_move_def Let_def)

text \<open>
  After 1. f3 Black's player asks for e7-e4.
\<close>

theorem illegal_move_only_notifies_sender_witness:
  "fst (on_move line_engine ''b'' (mv ''e7'' ''e4'') (state_after line_engine after_f3)) =
     state_after line_engine after_f3 \<and>
   snd (on_move line_engine ''b'' (mv ''e7'' ''e4'') (state_after line_engine after_f3)) =
     [ToSocket ''b'' (InvalidMove ''Invalid move'')] \<and>
   \<not> list_ex is_broadcast
       (snd (on_move line_engine ''b'' (mv ''e7'' ''e4'') (state_after line_engine after_f3)))"
proof -
  let ?s = "state_after line_engine after_f3"
  let ?m = "\<lparr>p_from = ''e7'', p_to = ''e4'', p_promotion = Some ''q''\<rparr>"
  have seat: "Some ''b'' = at_color (turnColor line_engine ?s) (players ?s)"
    by (simp add: after_f3_state turnColor_def)
  have rej: "move line_engine (chess ?s) (serverMove ?m) = Null \<or>
             move line_engine (chess ?s) (serverMove ?m) = Throws []"
    by (simp add: after_f3_state)
  have out: "snd (on_move line_engine ''b'' (mv ''e7'' ''e4'') ?s) =
               [ToSocket ''b'' (InvalidMove ''Invalid move'')]"
    by (simp add: after_f3_state on_move_def turnColor_def mv_def Let_def)
  show ?thesis
    using illegal_move_only_notifies_sender [OF seat rej] out by (simp add: mv_def)
qed

subsection \<open>C7: the countdown after a move\<close>

text \<open>
  Claim C7, as stated, fails. Black's player \<open>b\<close> plays the mating move Qd8-h4: the
  move is accepted and broadcast, the handler announces the checkmate and clears the
  interval it has just scheduled, so that no side is counting down, not the opponent of
  the side that moved.
\<close>

theorem mating_move_counterexample:
  "turnColor line_engine (state_after line_engine before_mate) = Black \<and>
   players (state_after line_engine before_mate) = \<lparr>white = Some ''a'', black = Some ''b''\<rparr> \<and>
   chess (fst (on_move line_engine ''b'' (mv ''d8'' ''h4'') (state_after line_engine before_mate))) = 4 \<and>
   snd (on_move line_engine ''b'' (mv ''d8'' ''h4'') (state_after line_engine before_mate)) =
     [ToAll (MoveMsg \<lparr>m_from = ''d8'', m_to = ''h4'', m_promotion = ''q''\<rparr>
               ''rnb1kbnr/pppp1ppp/8/4p3/6Pq/5P2/PPPPP2P/RNBQKBNR w KQkq - 1 3''
               \<lparr>white = 600, black = 600\<rparr>),
      ToAll (GameOver ''Checkmate! Black wins'')] \<and>
   scheduled (fst (on_move line_engine ''b'' (mv ''d8'' ''h4'') (state_after line_engine before_mate))) = [] \<and>
   map snd (scheduled (fst (on_move line_engine ''b'' (mv ''d8'' ''h4'')
      (state_after line_engine before_mate)))) \<noteq> [White]"
  by (simp add: before_mate_state eval_defs line_fen_def)

text \<open>
  Claim C7, amended. After an accepted move in a state that the server can reach, the
  side whose countdown is scheduled is Black when White has moved and White when Black
  has moved, unless the move ends the game (checkmate, stalemate or draw, as the engine
  says), and then none is. In every reachable state at most one countdown is scheduled,
  and a tick changes the remaining time of no side but the one its interval is scheduled
  for.
\<close>

theorem accepted_move_switches_countdown:
  assumes "Some sock = at_color (turnColor E (state_after E evs)) (players (state_after E evs))"
    and "move E (chess (state_after E evs)) (serverMove m) = Moved p'"
  shows "map snd (scheduled (fst (on_move E sock (Obj m) (state_after E evs)))) =
           (if in_checkmate E p' \<or> in_stalemate E p' \<or> in_draw E p' then []
            else if turn E (chess (state_after E evs)) = ''w'' then [Black] else [White]) \<and>
         length (scheduled (state_after E evs')) \<le> 1 \<and>
         (\<forall>c. map_of (scheduled s) h \<noteq> Some c \<longrightarrow>
               at_color c (timers (fst (tick h s))) = at_color c (timers s))"
proof -
  let ?s = "state_after E evs"
  let ?s1 = "stopTimers (?s\<lparr>chess := p'\<rparr>)"
  have w1: "wf_timers ?s1" by (simp add: wf_stopTimers wf_state_after)
  have s2: "scheduled (startTimer k ?s1) = [(next_handle ?s, k)]" for k
    using startTimer_scheduled [OF w1, of k] by simp
  have s3: "scheduled (stopTimers (startTimer k ?s1)) = []" for k
    using wf_startTimer [OF w1, of k] by (rule stopTimers_scheduled)
  have a: "map snd (scheduled (fst (on_move E sock (Obj m) ?s))) =
           (if in_checkmate E p' \<or> in_stalemate E p' \<or> in_draw E p' then []
            else if turn E (chess ?s) = ''w'' then [Black] else [White])"
    using assms by (simp add: on_move_def Let_def s2 s3 turnColor_def nextColor_def)
  have "wf_timers (state_after E evs')" by (rule wf_state_after)
  then have b: "length (scheduled (state_after E evs')) \<le> 1"
    by (auto simp: wf_timers_def split: option.splits)
  have c: "\<forall>c. map_of (scheduled s) h \<noteq> Some c \<longrightarrow>
               at_color c (timers (fst (tick h s))) = at_color c (timers s)"
    by (cases "map_of (scheduled s) h") (auto simp: tick_def interval_callback_def Let_def)
  from a b c show ?thesis by blast
qed

text \<open>
  White's first move f2-f3 schedules Black's countdown and Black's answer e7-e5 would
  schedule White's; a tick of Black's countdown leaves White's time as it is.
\<close>

theorem accepted_move_switches_countdown_witness:
  "map snd (scheduled (fst (on_move line_engine ''a'' (mv ''f2'' ''f3'')
      (state_after line_engine seated)))) = [Black] \<and>
   map snd (scheduled (fst (on_move line_engine ''b'' (mv ''e7'' ''e5'')
      (state_after line_engine after_f3)))) = [White] \<and>
   length (scheduled (state_after line_engine after_f3)) \<le> 1 \<and>
   at_color White (timers (fst (tick 1 (state_after line_engine after_f3)))) =
   at_color White (timers (state_after line_engine after_f3))"
proof -
  let ?s = "state_after line_engine seated"
  let ?t = "state_after line_engine after_f3"
  have seat: "Some ''a'' = at_color (turnColor line_engine ?s) (players ?s)"
    by (simp add: seated_state turnColor_def)
  have ok: "move line_engine (chess ?s)
              (serverMove \<lparr>p_from = ''f2'', p_to = ''f3'', p_promotion = Some ''q''\<rparr>) = Moved (Suc 0)"
    by (simp add: seated_state)
  have seat': "Some ''b'' = at_color (turnColor line_engine ?t) (players ?t)"
    by (simp add: after_f3_state turnColor_def)
  have ok': "move line_engine (chess ?t)
              (serverMove \<lparr>p_from = ''e7'', p_to = ''e5'', p_promotion = Some ''q''\<rparr>) =
             Moved (Suc (Suc 0))"
    by (simp add: after_f3_state)
  have fr: "map_of (scheduled ?t) 1 \<noteq> Some White"
    by (simp add: after_f3_state)
  note th = accepted_move_switches_countdown [OF seat ok, of after_f3 ?t 1]
  note th' = accepted_move_switches_countdown [OF seat' ok', of after_f3 ?t 1]
  from th have a: "map snd (scheduled (fst (on_move line_engine ''a'' (mv ''f2'' ''f3'') ?s))) = [Black]"
    by (simp add: mv_def seated_state)
  from th' have a': "map snd (scheduled (fst (on_move line_engine ''b'' (mv ''e7'' ''e5'') ?t))) = [White]"
    by (simp add: mv_def after_f3_state)
  from th have b: "length (scheduled ?t) \<le> 1"
    by blast
  from th fr have c: "at_color White (timers (fst (tick 1 ?t))) = at_color White (timers ?t)"
    by blast
  from a a' b c show ?thesis by blast
qed

subsection \<open>C8: reset\<close>

text \<open>
  Claim C8. Whatever the state before, \<^verbatim>\<open>reset()\<close> empties both seats, puts both
  remaining times at 600, puts the position at the initial one and empties
  \<^verbatim>\<open>timerIntervals\<close>, so that the coordinator is \<open>Waiting\<close>; from every state that
  the server can reach, no interval stays scheduled.
\<close>

theorem reset_restores_start:
  "players (reset E s) = \<lparr>white = None, black = None\<rparr> \<and>
   timers (reset E s) = \<lparr>white = 600, black = 600\<rparr> \<and>
   chess (reset E s) = new_Chess E \<and>
   timerIntervals (reset E s) = no_intervals \<and>
   Waiting (reset E s) \<and>
   scheduled (reset E (state_after E evs)) = []"
proof -
  have "wf_timers ((state_after E evs)\<lparr>chess := new_Chess E, timers := \<lparr>white = 600, black = 600\<rparr>\<rparr>)"
    by (simp add: wf_state_after)
  then have "scheduled (reset E (state_after E evs)) = []"
    by (simp add: reset_def Let_def stopTimers_scheduled)
  then show ?thesis
    by (simp add: reset_def Let_def Waiting_def)
qed

subsection \<open>C9: the two copies of reset\<close>

text \<open>
  Claim C9, as stated, fails. From the state in which \<open>a\<close> and \<open>b\<close> are seated,
  \<^verbatim>\<open>reset\<close> of src/app.js empties the seats and \<^verbatim>\<open>reset\<close> of the second server
  copy leaves \<open>a\<close> and \<open>b\<close> on them: the two resulting states differ, and in the seats
  only.
\<close>

theorem resets_differ_on_seats_counterexample:
  "players (reset line_engine (state_after line_engine seated)) = \<lparr>white = None, black = None\<rparr> \<and>
   players (reset_copy line_engine (state_after line_engine seated)) =
     \<lparr>white = Some ''a'', black = Some ''b''\<rparr> \<and>
   reset line_engine (state_after line_engine seated) \<noteq>
     reset_copy line_engine (state_after line_engine seated) \<and>
   (reset line_engine (state_after line_engine seated))
      \<lparr>players := \<lparr>white = Some ''a'', black = Some ''b''\<rparr>\<rparr> =
     reset_copy line_engine (state_after line_engine seated)"
proof -
  have a: "players (reset line_engine (state_after line_engine seated)) = \<lparr>white = None, black = None\<rparr>"
    by (simp add: reset_def Let_def)
  have b: "players (reset_copy line_engine (state_after line_engine seated)) =
     \<lparr>white = Some ''a'', black = Some ''b''\<rparr>"
    by (simp add: reset_copy_def Let_def seated_state)
  from a b have "players (reset line_engine (state_after line_engine seated)) \<noteq>
     players (reset_copy line_engine (state_after line_engine seated))" by simp
  then have "reset line_engine (state_after line_engine seated) \<noteq>
     reset_copy line_engine (state_after line_engine seated)" by metis
  moreover have "(reset line_engine (state_after line_engine seated))
      \<lparr>players := \<lparr>white = Some ''a'', black = Some ''b''\<rparr>\<rparr> =
     reset_copy line_engine (state_after line_engine seated)"
    by (simp add: reset_def reset_copy_def Let_def seated_state stopTimers_def)
  ultimately show ?thesis using a b by simp
qed

text \<open>
  Claim C9, amended. From the same state the two \<^verbatim>\<open>reset\<close> operations give the
  same position, remaining times and timer intervals, and they differ in the seats only:
  that of src/app.js empties both seats, that of the copy leaves the seats as they were.
  The two resulting states are equal exactly when both seats were empty before.
\<close>

theorem reset_copy_leaves_seats:
  "reset_copy E s = (reset E s)\<lparr>players := players s\<rparr> \<and>
   reset E s = (reset_copy E s)\<lparr>players := \<lparr>white = None, black = None\<rparr>\<rparr> \<and>
   chess (reset_copy E s) = chess (reset E s) \<and>
   timers (reset_copy E s) = timers (reset E s) \<and>
   timerIntervals (reset_copy E s) = timerIntervals (reset E s) \<and>
   scheduled (reset_copy E s) = scheduled (reset E s) \<and>
   players (reset_copy E s) = players s \<and>
   players (reset E s) = \<lparr>white = None, black = None\<rparr> \<and>
   (reset E s = reset_copy E s) = (players s = \<lparr>white = None, black = None\<rparr>)"
proof -
  have a: "reset_copy E s = (reset E s)\<lparr>players := players s\<rparr>"
    by (simp add: reset_def reset_copy_def Let_def stopTimers_def)
  have b: "reset E s = (reset_copy E s)\<lparr>players := \<lparr>white = None, black = None\<rparr>\<rparr>"
    by (simp add: reset_def reset_copy_def Let_def)
  have c: "players (reset_copy E s) = players s"
    by (simp add: reset_copy_def Let_def)
  have d: "players (reset E s) = \<lparr>white = None, black = None\<rparr>"
    by (simp add: reset_def Let_def)
  have e: "(reset E s = reset_copy E s) = (players s = \<lparr>white = None, black = None\<rparr>)"
  proof
    assume "reset E s = reset_copy E s"
    then have "players (reset E s) = players (reset_copy E s)" by simp
    with c d show "players s = \<lparr>white = None, black = None\<rparr>" by simp
  next
    assume "players s = \<lparr>white = None, black = None\<rparr>"
    with a d have "reset_copy E s = (reset E s)\<lparr>players := players (reset E s)\<rparr>"
      by simp
    then show "reset E s = reset_copy E s" by simp
  qed
  have f: "chess (reset_copy E s) = chess (reset E s) \<and>
   timers (reset_copy E s) = timers (reset E s) \<and>
   timerIntervals (reset_copy E s) = timerIntervals (reset E s) \<and>
   scheduled (reset_copy E s) = scheduled (reset E s)"
    by (simp add: reset_def reset_copy_def Let_def stopTimers_def)
  from a b c d e f show ?thesis by blast
qed

subsection \<open>C10: a spectator disconnects\<close>

text \<open>
  Claim C10. The disconnect of a connection that holds neither seat changes nothing
  (seats, remaining times, intervals, position) and emits nothing.
\<close>

theorem spectator_disconnect_is_noop:
  "Some sock \<noteq> white (players s) \<Longrightarrow> Some sock \<noteq> black (players s) \<Longrightarrow>
   on_disconnect sock s = (s, [])"
  by (simp add: on_disconnect_def)

text \<open>
  A third connection \<open>c\<close>, a spectator, disconnects while \<open>a\<close> and \<open>b\<close> are seated.
\<close>

theorem spectator_disconnect_is_noop_witness:
  "Some ''c'' \<noteq> white (players (state_after line_engine seated)) \<and>
   Some ''c'' \<noteq> black (players (state_after line_engine seated)) \<and>
   on_disconnect ''c'' (state_after line_engine seated) = (state_after line_engine seated, [])"
proof -
  have w: "Some ''c'' \<noteq> white (players (state_after line_engine seated))"
    and b: "Some ''c'' \<noteq> black (players (state_after line_engine seated))"
    by (simp_all add: seated_state)
  show ?thesis
    using w b spectator_disconnect_is_noop [OF w b] by simp
qed

end
